theory Spec2Isabelle
  imports Complex_Main
begin

section \<open>JavaScript numbers\<close>

text \<open>
  The program computes with JavaScript numbers. A number is modelled as a finite value
  (an exact real: rounding, overflow and underflow of the 64-bit format are left out),
  one of the two infinities, or NaN. Zero carries no sign; a zero denominator behaves as
  the positive zero, which is what the sums of squares \<open>A\<close> and \<open>Kt * Kt\<close> of the
  program are when they vanish (for \<open>2 * aP\<close> this leaves out a phase resistance that
  is the negative zero).

  Division by zero follows the language: a positive numerator gives \<open>Infinity\<close>, a
  negative one \<open>-Infinity\<close>, and \<open>0/0\<close> is NaN. NaN makes every comparison false
  and passes through \<open>Math.max\<close> and \<open>Math.min\<close>.
\<close>

datatype jsnum = Fin real | PInf | NInf | NaN

fun isFinite :: "jsnum \<Rightarrow> bool" where
  "isFinite (Fin x) = True"
| "isFinite PInf = False"
| "isFinite NInf = False"
| "isFinite NaN = False"




fun js_mul :: "jsnum \<Rightarrow> jsnum \<Rightarrow> jsnum" where
  "js_mul (Fin x) (Fin y) = Fin (x * y)"
| "js_mul (Fin x) PInf = (if 0 < x then PInf else if x < 0 then NInf else NaN)"
| "js_mul (Fin x) NInf = (if 0 < x then NInf else if x < 0 then PInf else NaN)"
| "js_mul PInf (Fin y) = (if 0 < y then PInf else if y < 0 then NInf else NaN)"
| "js_mul NInf (Fin y) = (if 0 < y then NInf else if y < 0 then PInf else NaN)"
| "js_mul PInf PInf = PInf"
| "js_mul PInf NInf = NInf"
| "js_mul NInf PInf = NInf"
| "js_mul NInf NInf = PInf"
| "js_mul NaN b = NaN"
| "js_mul a NaN = NaN"

fun js_div :: "jsnum \<Rightarrow> jsnum \<Rightarrow> jsnum" where
  "js_div (Fin x) (Fin y) =
     (if y \<noteq> 0 then Fin (x / y)
      else if 0 < x then PInf else if x < 0 then NInf else NaN)"
| "js_div (Fin x) PInf = Fin 0"
| "js_div (Fin x) NInf = Fin 0"
| "js_div PInf (Fin y) = (if 0 \<le> y then PInf else NInf)"
| "js_div NInf (Fin y) = (if 0 \<le> y then NInf else PInf)"
| "js_div PInf PInf = NaN"
| "js_div PInf NInf = NaN"
| "js_div NInf PInf = NaN"
| "js_div NInf NInf = NaN"
| "js_div NaN b = NaN"
| "js_div a NaN = NaN"


text \<open>The comparisons \<open><\<close>, \<open>>\<close>, \<open><=\<close>, \<open>>=\<close>: false as soon as one side is NaN.\<close>

fun js_lt :: "jsnum \<Rightarrow> jsnum \<Rightarrow> bool" where
  "js_lt (Fin x) (Fin y) = (x < y)"
| "js_lt (Fin x) PInf = True"
| "js_lt NInf (Fin y) = True"
| "js_lt NInf PInf = True"
| "js_lt a b = False"

definition js_gt :: "jsnum \<Rightarrow> jsnum \<Rightarrow> bool" where
  "js_gt a b = js_lt b a"

definition js_le :: "jsnum \<Rightarrow> jsnum \<Rightarrow> bool" where
  "js_le a b = (a \<noteq> NaN \<and> b \<noteq> NaN \<and> (a = b \<or> js_lt a b))"

definition js_ge :: "jsnum \<Rightarrow> jsnum \<Rightarrow> bool" where
  "js_ge a b = js_le b a"

text \<open>
  The helper \<open>number\<close>, applied to the value parsed from an input field: a non-finite
  value becomes 0.
\<close>

fun number :: "jsnum \<Rightarrow> real" where
  "number (Fin x) = x"
| "number PInf = 0"
| "number NInf = 0"
| "number NaN = 0"

text \<open>\<open>Math.max\<close>, \<open>Math.min\<close> and \<open>Math.abs\<close>: NaN as soon as one argument is NaN.\<close>

definition js_max :: "jsnum \<Rightarrow> jsnum \<Rightarrow> jsnum" where
  "js_max a b = (if a = NaN \<or> b = NaN then NaN else if js_lt a b then b else a)"

definition js_min :: "jsnum \<Rightarrow> jsnum \<Rightarrow> jsnum" where
  "js_min a b = (if a = NaN \<or> b = NaN then NaN else if js_lt b a then b else a)"

definition js_min3 :: "jsnum \<Rightarrow> jsnum \<Rightarrow> jsnum \<Rightarrow> jsnum" where
  "js_min3 a b c = js_min (js_min a b) c"

fun js_abs :: "jsnum \<Rightarrow> jsnum" where
  "js_abs (Fin x) = Fin \<bar>x\<bar>"
| "js_abs PInf = PInf"
| "js_abs NInf = PInf"
| "js_abs NaN = NaN"

section \<open>The parameter snapshot (component state of App.tsx)\<close>

datatype constMode = KT | KV
datatype mode = CONC | ECC
datatype winding = DELTA | WYE

text \<open>
  Every field is set from a default or through \<open>number\<close>, which replaces a non-finite
  value by 0: the fields are finite numbers.
\<close>

record params =
  constMode :: constMode
  KtState :: real
  KvState :: real
  mode :: mode
  Rll :: real
  Lll_uH :: real
  winding :: winding
  copperTempC :: real
  Vbus :: real
  util :: real
  Imax :: real
  idFWmax :: real
  gearRatio :: real
  gearEff :: real
  drumRadius :: real
  maxSpeed :: real
  steps :: real
  selected :: "real list"

definition LBF_PER_N :: real where
  "LBF_PER_N = 1 / 4.4482216152605"

definition KTKV :: real where
  "KTKV = 9.5492965964254"

definition eps9 :: real where
  "eps9 = 1 / 10 ^ 9"

definition defaults :: params where
  "defaults = \<lparr> constMode = KT, KtState = 0.272, KvState = 35, mode = CONC,
      Rll = 0.164, Lll_uH = 235, winding = DELTA, copperTempC = 25,
      Vbus = 48, util = 0.95, Imax = 72, idFWmax = 0,
      gearRatio = 10, gearEff = 0.9, drumRadius = 0.05,
      maxSpeed = 3, steps = 60, selected = [3000] \<rparr>"

section \<open>Electrical model\<close>

text \<open>
  The divisors \<open>Math.max(1e-9, KvState)\<close> and \<open>Math.max(1e-9, KtState)\<close> are at least
  \<open>1e-9\<close>: in exact arithmetic the quotients are numbers.
\<close>

definition Kt :: "params \<Rightarrow> real" where
  "Kt p = (if constMode p = KT then KtState p else KTKV / max eps9 (KvState p))"

definition Kv :: "params \<Rightarrow> real" where
  "Kv p = (if constMode p = KV then KvState p else KTKV / max eps9 (KtState p))"

definition RphaseBase :: "params \<Rightarrow> real" where
  "RphaseBase p = (if winding p = WYE then Rll p / 2 else 1.5 * Rll p)"

definition LphaseBase :: "params \<Rightarrow> real" where
  "LphaseBase p =
     (let Lll = Lll_uH p * (1 / 10 ^ 6)
      in if winding p = WYE then Lll / 2 else 1.5 * Lll)"

definition Rphase :: "params \<Rightarrow> real" where
  "Rphase p = (let alpha = 0.0039 in RphaseBase p * (1 + alpha * (copperTempC p - 25)))"

definition kcu :: "params \<Rightarrow> jsnum" where
  "kcu p = js_div (Fin (3 * Rphase p)) (Fin (Kt p * Kt p))"

definition VphaseMax :: "params \<Rightarrow> real" where
  "VphaseMax p = (util p * Vbus p) / sqrt 3"

definition TmMax :: "params \<Rightarrow> real" where
  "TmMax p = Kt p * Imax p"

text \<open>
  Two input handlers. The field "Max Motor Torque" sets the current limit to
  \<open>number(value) / Math.max(1e-9, Kt)\<close>; the field "Chart points" sets the number of
  steps to \<open>Math.max(10, Math.min(500, number(value)))\<close>, without rounding it.
\<close>

definition onChange_MaxMotorTorque :: "params \<Rightarrow> jsnum \<Rightarrow> params" where
  "onChange_MaxMotorTorque p val = p\<lparr>Imax := number val / max eps9 (Kt p)\<rparr>"

definition onChange_ChartPoints :: "params \<Rightarrow> jsnum \<Rightarrow> params" where
  "onChange_ChartPoints p val = p\<lparr>steps := max 10 (min 500 (number val))\<rparr>"

section \<open>Torque solver (body of the loops of \<open>data\<close>)\<close>

text \<open>
  The functions below are the local constants of the loop body, with the snapshot \<open>p\<close>,
  the motor speed \<open>w\<close> (the source's \<open>omega_m\<close>), the sample \<open>i_d\<close> (the source's
  \<open>id\<close>) and the supply limit \<open>Pin\<close> as arguments. A value that the source computes
  from the finite fields by sums, products, square roots of non-negative numbers and
  quotients with a clamped denominator is kept as an exact real: that such a value can
  overflow to an infinity or underflow to 0 in the 64-bit format is left out, like
  rounding. A quotient whose denominator is not clamped, and everything computed from it,
  is a \<open>jsnum\<close>.
\<close>

definition N_ID :: nat where
  "N_ID = 40"

definition omega_out :: "params \<Rightarrow> real \<Rightarrow> real" where
  "omega_out p v = v / max eps9 (drumRadius p)"

definition omega_m :: "params \<Rightarrow> real \<Rightarrow> real" where
  "omega_m p v = omega_out p v * gearRatio p"

definition A :: "params \<Rightarrow> real \<Rightarrow> real" where
  "A p w = Rphase p * Rphase p + (w * LphaseBase p) * (w * LphaseBase p)"

definition Babs_v :: "params \<Rightarrow> real \<Rightarrow> real" where
  "Babs_v p w = 2 * Rphase p * w * Kt p"

definition id_k :: "params \<Rightarrow> nat \<Rightarrow> real" where
  "id_k p k = - idFWmax p * (real k / real N_ID)"

definition iqMaxCurrent :: "params \<Rightarrow> real \<Rightarrow> real" where
  "iqMaxCurrent p i_d = sqrt (max 0 (Imax p * Imax p - i_d * i_d))"

definition C :: "params \<Rightarrow> real \<Rightarrow> real \<Rightarrow> real" where
  "C p w i_d =
     (Rphase p * i_d) * (Rphase p * i_d) + (w * (LphaseBase p * i_d + Kt p)) ^ 2
       - VphaseMax p * VphaseMax p"

definition disc :: "params \<Rightarrow> real \<Rightarrow> real \<Rightarrow> real" where
  "disc p w i_d = Babs_v p w * Babs_v p w - 4 * A p w * C p w i_d"

definition iqMaxVoltConc :: "params \<Rightarrow> real \<Rightarrow> real \<Rightarrow> jsnum" where
  "iqMaxVoltConc p w i_d =
     (if disc p w i_d \<ge> 0
      then js_max (Fin 0) (js_div (Fin (- Babs_v p w + sqrt (disc p w i_d))) (Fin (2 * A p w)))
      else Fin 0)"

definition iqMaxVoltEcc :: "params \<Rightarrow> real \<Rightarrow> real \<Rightarrow> jsnum" where
  "iqMaxVoltEcc p w i_d =
     (if disc p w i_d \<ge> 0
      then js_max (Fin 0) (js_div (Fin (Babs_v p w + sqrt (disc p w i_d))) (Fin (2 * A p w)))
      else Fin 0)"

definition iqMaxVolt :: "params \<Rightarrow> real \<Rightarrow> real \<Rightarrow> jsnum" where
  "iqMaxVolt p w i_d = (if mode p = CONC then iqMaxVoltConc p w i_d else iqMaxVoltEcc p w i_d)"

definition aP :: "params \<Rightarrow> real" where
  "aP p = 3 * Rphase p"

definition bP :: "params \<Rightarrow> real \<Rightarrow> real" where
  "bP p w = Kt p * w"

definition cP :: "params \<Rightarrow> real \<Rightarrow> real \<Rightarrow> real" where
  "cP p i_d Pin = 3 * Rphase p * i_d * i_d - Pin"

definition Dp :: "params \<Rightarrow> real \<Rightarrow> real \<Rightarrow> real \<Rightarrow> real" where
  "Dp p w i_d Pin = bP p w * bP p w - 4 * aP p * cP p i_d Pin"

definition iqMaxPower :: "params \<Rightarrow> real \<Rightarrow> real \<Rightarrow> real \<Rightarrow> jsnum" where
  "iqMaxPower p w i_d Pin =
     (if mode p = CONC
      then (if Dp p w i_d Pin \<ge> 0
            then js_max (Fin 0)
                   (js_div (Fin (- bP p w + sqrt (Dp p w i_d Pin))) (Fin (2 * aP p)))
            else Fin 0)
      else PInf)"

definition iqMax :: "params \<Rightarrow> real \<Rightarrow> real \<Rightarrow> real \<Rightarrow> jsnum" where
  "iqMax p w i_d Pin =
     js_min3 (Fin (iqMaxCurrent p i_d)) (iqMaxVolt p w i_d) (iqMaxPower p w i_d Pin)"

definition Tm :: "params \<Rightarrow> real \<Rightarrow> real \<Rightarrow> real \<Rightarrow> jsnum" where
  "Tm p w i_d Pin = js_mul (Fin (Kt p)) (iqMax p w i_d Pin)"

text \<open>The loop \<open>for (let k = 0; k <= N_ID; k++)\<close>, with \<open>bestTm\<close> as accumulator.\<close>

function bestTm_loop :: "params \<Rightarrow> real \<Rightarrow> real \<Rightarrow> nat \<Rightarrow> jsnum \<Rightarrow> jsnum" where
  "bestTm_loop p w Pin k best =
     (if k \<le> N_ID
      then bestTm_loop p w Pin (Suc k)
             (if js_gt (Tm p w (id_k p k) Pin) best then Tm p w (id_k p k) Pin else best)
      else best)"
  by pat_completeness auto
termination
  by (relation "measure (\<lambda>(p, w, Pin, k, best). Suc N_ID - k)") auto

declare bestTm_loop.simps [simp del]

definition bestTm :: "params \<Rightarrow> real \<Rightarrow> real \<Rightarrow> jsnum" where
  "bestTm p w Pin = bestTm_loop p w Pin 0 (Fin 0)"

definition TmFinal :: "params \<Rightarrow> real \<Rightarrow> real \<Rightarrow> jsnum" where
  "TmFinal p w Pin = js_min (bestTm p w Pin) (Fin (TmMax p))"

definition Tout :: "params \<Rightarrow> real \<Rightarrow> real \<Rightarrow> jsnum" where
  "Tout p w Pin = js_mul (js_mul (TmFinal p w Pin) (Fin (gearRatio p))) (Fin (gearEff p))"

definition F :: "params \<Rightarrow> real \<Rightarrow> real \<Rightarrow> jsnum" where
  "F p w Pin = js_div (Tout p w Pin) (Fin (max eps9 (drumRadius p)))"

definition lbf :: "params \<Rightarrow> real \<Rightarrow> real \<Rightarrow> jsnum" where
  "lbf p w Pin = js_mul (F p w Pin) (Fin LBF_PER_N)"

text \<open>The value stored under the label of \<open>Pin\<close>.\<close>

definition cell :: "params \<Rightarrow> real \<Rightarrow> real \<Rightarrow> jsnum" where
  "cell p w Pin =
     (if isFinite (lbf p w Pin) \<and> js_gt (lbf p w Pin) (Fin 0) then lbf p w Pin else Fin 0)"

section \<open>Curve generation (\<open>data\<close>)\<close>

text \<open>
  A row holds the speed and one value per supply limit; the label \<open>`${Pin} W`\<close> is
  represented by the number \<open>Pin\<close> itself.
\<close>

record row =
  speed :: real
  series :: "(real \<times> jsnum) list"

definition step :: "params \<Rightarrow> real" where
  "step p = max 1 (steps p)"

definition v_at :: "params \<Rightarrow> nat \<Rightarrow> real" where
  "v_at p i = (maxSpeed p * real i) / step p"

definition row_at :: "params \<Rightarrow> nat \<Rightarrow> row" where
  "row_at p i =
     (let v = v_at p i; w = omega_m p v
      in \<lparr> speed = v, series = map (\<lambda>Pin. (Pin, cell p w Pin)) (selected p) \<rparr>)"

text \<open>The loop \<open>for (let i = 0; i <= step; i++)\<close>, pushing one row per turn.\<close>

function data_loop :: "params \<Rightarrow> nat \<Rightarrow> row list" where
  "data_loop p i = (if real i \<le> step p then row_at p i # data_loop p (Suc i) else [])"
  by pat_completeness auto
termination
  by (relation "measure (\<lambda>(p, i). Suc (nat \<lfloor>step p\<rfloor>) - i)") (auto, linarith)

declare data_loop.simps [simp del]

definition data :: "params \<Rightarrow> row list" where
  "data p = data_loop p 0"

section \<open>The simple power-only model (App_old.tsx)\<close>








section \<open>Facts about JavaScript numbers\<close>

lemma js_max_Fin: "js_max (Fin a) (Fin b) = Fin (max a b)"
  by (simp add: js_max_def max_def)

lemma js_min_Fin: "js_min (Fin a) (Fin b) = Fin (min a b)"
  by (simp add: js_min_def min_def)

lemma js_max_zero_cases:
  "js_max (Fin 0) z = NaN \<or> js_max (Fin 0) z = PInf \<or> (\<exists>x\<ge>0. js_max (Fin 0) z = Fin x)"
  by (cases z) (auto simp: js_max_def)




lemma max_eps9_pos: "0 < max eps9 x"
  by (simp add: eps9_def max_def)

section \<open>Facts about the torque solver\<close>

lemma iqMaxVolt_cases:
  "iqMaxVolt p w d = NaN \<or> iqMaxVolt p w d = PInf \<or> (\<exists>x\<ge>0. iqMaxVolt p w d = Fin x)"
  using js_max_zero_cases by (auto simp: iqMaxVolt_def iqMaxVoltConc_def iqMaxVoltEcc_def)

lemma iqMaxPower_cases:
  "iqMaxPower p w d Pin = NaN \<or> iqMaxPower p w d Pin = PInf \<or> (\<exists>x\<ge>0. iqMaxPower p w d Pin = Fin x)"
  using js_max_zero_cases by (auto simp: iqMaxPower_def)

lemma iqMaxCurrent_nonneg: "0 \<le> iqMaxCurrent p d"
  by (simp add: iqMaxCurrent_def)

lemma iqMaxCurrent_le_Imax:
  assumes "0 \<le> Imax p"
  shows "iqMaxCurrent p d \<le> Imax p"
proof -
  have "max 0 (Imax p * Imax p - d * d) \<le> Imax p * Imax p" by simp
  then have "sqrt (max 0 (Imax p * Imax p - d * d)) \<le> sqrt (Imax p * Imax p)"
    by (rule real_sqrt_le_mono)
  then show ?thesis using assms by (simp add: iqMaxCurrent_def)
qed

lemma iqMax_volt_zero:
  assumes "iqMaxVolt p w d = Fin 0"
  shows "iqMax p w d Pin = Fin 0 \<or> iqMax p w d Pin = NaN"
  using iqMaxPower_cases[of p w d Pin] iqMaxCurrent_nonneg[of p d] assms
  by (auto simp: iqMax_def js_min3_def js_min_def)

lemma iqMax_cases:
  "iqMax p w d Pin = NaN \<or> (\<exists>x. iqMax p w d Pin = Fin x \<and> 0 \<le> x \<and> x \<le> iqMaxCurrent p d)"
  using iqMaxVolt_cases[of p w d] iqMaxPower_cases[of p w d Pin] iqMaxCurrent_nonneg[of p d]
  by (auto simp: iqMax_def js_min3_def js_min_def)

lemma Tm_cases: "Tm p w d Pin = NaN \<or> (\<exists>x. Tm p w d Pin = Fin x)"
  using iqMax_cases[of p w d Pin] by (auto simp: Tm_def)


lemma A_pos: "Rphase p \<noteq> 0 \<Longrightarrow> 0 < A p w"
proof -
  assume "Rphase p \<noteq> 0"
  then have "0 < Rphase p * Rphase p"
    using not_real_square_gt_zero[of "Rphase p"] by blast
  moreover have "0 \<le> (w * LphaseBase p) * (w * LphaseBase p)" by simp
  ultimately show ?thesis unfolding A_def by linarith
qed

lemma iqMax_number:
  assumes "A p w \<noteq> 0" "mode p = ECC \<or> aP p \<noteq> 0"
  shows "iqMax p w d Pin \<noteq> NaN"
proof -
  have v: "\<exists>x. iqMaxVolt p w d = Fin x"
    using assms(1) by (simp add: iqMaxVolt_def iqMaxVoltConc_def iqMaxVoltEcc_def js_max_Fin)
  have pw: "iqMaxPower p w d Pin = PInf \<or> (\<exists>x. iqMaxPower p w d Pin = Fin x)"
    using assms(2) by (cases "mode p") (auto simp: iqMaxPower_def js_max_Fin)
  show ?thesis using v pw by (auto simp: iqMax_def js_min3_def js_min_def)
qed

text \<open>
  The search loop keeps its accumulator when no sample beats it, returns the common value
  of the samples when they are all equal, and never leaves the finite numbers.
\<close>

lemma bestTm_loop_stays:
  assumes "\<And>j. j \<le> N_ID \<Longrightarrow> \<not> js_gt (Tm p w (id_k p j) Pin) best"
  shows "bestTm_loop p w Pin k best = best"
  using assms
proof (induction p w Pin k best rule: bestTm_loop.induct)
  case (1 p w Pin k best)
  show ?case
  proof (cases "k \<le> N_ID")
    case True
    then have "\<not> js_gt (Tm p w (id_k p k) Pin) best" using "1.prems" by blast
    then show ?thesis
      using True "1.IH" "1.prems" by (subst bestTm_loop.simps) simp
  next
    case False
    then show ?thesis by (subst bestTm_loop.simps) simp
  qed
qed


lemma bestTm_loop_finite:
  "isFinite best \<Longrightarrow> isFinite (bestTm_loop p w Pin k best)"
proof (induction p w Pin k best rule: bestTm_loop.induct)
  case (1 p w Pin k best)
  show ?case
  proof (cases "k \<le> N_ID")
    case True
    have "isFinite (if js_gt (Tm p w (id_k p k) Pin) best then Tm p w (id_k p k) Pin else best)"
      using Tm_cases[of p w "id_k p k" Pin] "1.prems" by (auto simp: js_gt_def)
    then show ?thesis
      using True "1.IH" by (subst bestTm_loop.simps) simp
  next
    case False
    then show ?thesis using "1.prems" by (subst bestTm_loop.simps) simp
  qed
qed

lemma bestTm_finite: "\<exists>t. bestTm p w Pin = Fin t"
proof -
  have "isFinite (bestTm p w Pin)"
    unfolding bestTm_def by (rule bestTm_loop_finite) simp
  then show ?thesis by (cases "bestTm p w Pin") simp_all
qed

lemma TmFinal_bound: "\<exists>t. TmFinal p w Pin = Fin t \<and> t \<le> TmMax p"
  using bestTm_finite[of p w Pin] by (auto simp: TmFinal_def js_min_Fin)

lemma cell_zero_of_Tm_zero:
  assumes "\<And>j. j \<le> N_ID \<Longrightarrow> \<not> js_gt (Tm p w (id_k p j) Pin) (Fin 0)"
    and "0 \<le> TmMax p"
  shows "cell p w Pin = Fin 0"
proof -
  have "bestTm p w Pin = Fin 0"
    unfolding bestTm_def using assms(1) by (rule bestTm_loop_stays)
  then have "TmFinal p w Pin = Fin 0"
    using assms(2) by (simp add: TmFinal_def js_min_Fin)
  then show ?thesis
    by (simp add: cell_def lbf_def F_def Tout_def js_gt_def)
qed

lemma cell_finite_nonneg: "\<exists>x\<ge>0. cell p w Pin = Fin x"
  by (cases "lbf p w Pin") (auto simp: cell_def js_gt_def)


text \<open>
  In eccentric mode the supply limit is read nowhere.
\<close>

lemma Tm_ECC: "mode p = ECC \<Longrightarrow> Tm p w d P1 = Tm p w d P2"
  by (simp add: Tm_def iqMax_def iqMaxPower_def)

lemma bestTm_loop_ECC:
  "mode p = ECC \<Longrightarrow> bestTm_loop p w P1 k best = bestTm_loop p w P2 k best"
proof (induction p w P1 k best rule: bestTm_loop.induct)
  case (1 p w Pin k best)
  show ?case
  proof (cases "k \<le> N_ID")
    case True
    then show ?thesis
      using "1.IH" "1.prems" Tm_ECC[OF "1.prems", of w "id_k p k" Pin P2]
      by (subst bestTm_loop.simps, subst (2) bestTm_loop.simps) simp
  next
    case False
    then show ?thesis by (subst bestTm_loop.simps, subst (2) bestTm_loop.simps) simp
  qed
qed

lemma cell_ECC: "mode p = ECC \<Longrightarrow> cell p w P1 = cell p w P2"
  using bestTm_loop_ECC[of p w P1 0 "Fin 0" P2]
  by (simp add: cell_def lbf_def F_def Tout_def TmFinal_def bestTm_def)

section \<open>Facts about the speed sweep\<close>

lemma nat_floor_step: "real i \<le> step p \<longleftrightarrow> i \<le> nat \<lfloor>step p\<rfloor>"
proof -
  have "0 \<le> \<lfloor>step p\<rfloor>" by (simp add: step_def)
  then have "i \<le> nat \<lfloor>step p\<rfloor> \<longleftrightarrow> int i \<le> \<lfloor>step p\<rfloor>"
    by (rule le_nat_iff)
  also have "\<dots> \<longleftrightarrow> real i \<le> step p" by (simp add: le_floor_iff)
  finally show ?thesis by simp
qed

lemma data_loop_map: "data_loop p i = map (row_at p) [i ..< Suc (nat \<lfloor>step p\<rfloor>)]"
proof (induction p i rule: data_loop.induct)
  case (1 p i)
  show ?case
  proof (cases "real i \<le> step p")
    case True
    then have le: "i \<le> nat \<lfloor>step p\<rfloor>" by (simp add: nat_floor_step)
    then have "[i ..< Suc (nat \<lfloor>step p\<rfloor>)] = i # [Suc i ..< Suc (nat \<lfloor>step p\<rfloor>)]"
      by (simp add: upt_conv_Cons)
    then show ?thesis using True "1.IH" by (subst data_loop.simps) simp
  next
    case False
    then have "\<not> i \<le> nat \<lfloor>step p\<rfloor>" by (simp add: nat_floor_step)
    then show ?thesis using False by (subst data_loop.simps) simp
  qed
qed

lemma data_map: "data p = map (row_at p) [0 ..< Suc (nat \<lfloor>step p\<rfloor>)]"
  by (simp add: data_def data_loop_map)

lemma row_in_data: "r \<in> set (data p) \<longleftrightarrow> (\<exists>i. real i \<le> step p \<and> r = row_at p i)"
proof -
  have "set [0 ..< Suc (nat \<lfloor>step p\<rfloor>)] = {i. real i \<le> step p}"
    by (auto simp: nat_floor_step)
  then show ?thesis unfolding data_map set_map by blast
qed

lemma map_of_series:
  "map_of (series (row_at p i)) P =
     (if P \<in> set (selected p) then Some (cell p (omega_m p (v_at p i)) P) else None)"
  by (simp add: row_at_def Let_def map_of_map_restrict restrict_map_def)

lemma step_of_nat: "steps p = real n \<Longrightarrow> 1 \<le> n \<Longrightarrow> step p = real n"
  by (simp add: step_def)

lemma data_speeds:
  assumes "steps p = real n" "1 \<le> n"
  shows "data p = map (row_at p) [0 ..< Suc n]"
    and "map speed (data p) = map (\<lambda>i. maxSpeed p * real i / real n) [0 ..< Suc n]"
proof -
  have s: "step p = real n" using assms by (rule step_of_nat)
  show d: "data p = map (row_at p) [0 ..< Suc n]"
    by (simp add: data_map s)
  show "map speed (data p) = map (\<lambda>i. maxSpeed p * real i / real n) [0 ..< Suc n]"
    unfolding d by (simp add: row_at_def Let_def v_at_def s)
qed

section \<open>The default snapshot and a snapshot with zero resistance\<close>


lemma Rphase_defaults: "Rphase defaults = 0.246"
  by (simp add: Rphase_def RphaseBase_def defaults_def)


lemma Imax_defaults: "Imax defaults = 72"
  by (simp add: defaults_def)

lemma id_k_defaults: "id_k defaults k = 0"
  by (simp add: id_k_def defaults_def)


lemma omega_m_top_speed: "omega_m defaults (v_at defaults 60) = 600"
  by (simp add: omega_m_def omega_out_def v_at_def step_def defaults_def eps9_def)

lemma disc_top_speed_neg: "disc defaults 600 0 < 0"
  by (simp add: disc_def Babs_v_def A_def C_def Rphase_def RphaseBase_def LphaseBase_def Kt_def VphaseMax_def defaults_def power2_eq_square)

lemma iqMaxCurrent_defaults_0: "iqMaxCurrent defaults 0 = 72"
  by (simp add: iqMaxCurrent_def defaults_def)

lemma iqMaxPower_top_speed: "js_lt (Fin 17) (iqMaxPower defaults 600 0 3000)"
proof -
  have m: "mode defaults = CONC" by (simp add: defaults_def)
  have a: "aP defaults = 0.738"
    by (simp add: aP_def Rphase_def RphaseBase_def defaults_def)
  have b: "bP defaults 600 = 163.2"
    by (simp add: bP_def Kt_def defaults_def)
  have D: "Dp defaults 600 0 3000 = 35490.24"
    by (simp add: Dp_def a b cP_def)
  have "(188.292::real)^2 < 35490.24" by (simp add: power2_eq_square)
  then have s: "188.292 < sqrt (35490.24::real)" by (rule real_less_rsqrt)
  have "(17::real) < (- 163.2 + sqrt 35490.24) / (2 * 0.738)"
    using s by (simp add: field_simps)
  then show ?thesis
    by (simp add: iqMaxPower_def m D a b js_max_Fin)
qed


lemma Rphase_zeroR: "Rphase (defaults\<lparr>Rll := 0\<rparr>) = 0"
  by (simp add: Rphase_def RphaseBase_def defaults_def)

lemma A_zeroR: "A (defaults\<lparr>Rll := 0\<rparr>) 0 = 0"
  by (simp add: A_def Rphase_zeroR)

lemma mode_zeroR: "mode (defaults\<lparr>Rll := 0\<rparr>) = CONC"
  by (simp add: defaults_def)

lemma iqMaxVoltConc_zeroR: "iqMaxVoltConc (defaults\<lparr>Rll := 0\<rparr>) 0 0 = NaN"
  by (simp add: iqMaxVoltConc_def disc_def Babs_v_def Rphase_zeroR A_zeroR js_max_def)

lemma iqMaxPower_zeroR: "iqMaxPower (defaults\<lparr>Rll := 0\<rparr>) 0 0 3000 = NaN"
  by (simp add: iqMaxPower_def Dp_def aP_def bP_def cP_def mode_zeroR Rphase_zeroR js_max_def)

lemma iqMax_zeroR: "iqMax (defaults\<lparr>Rll := 0\<rparr>) 0 (id_k (defaults\<lparr>Rll := 0\<rparr>) 0) 3000 = NaN"
proof -
  have "id_k (defaults\<lparr>Rll := 0\<rparr>) 0 = 0" by (simp add: id_k_def)
  then show ?thesis by (simp add: iqMax_def iqMaxVolt_def mode_zeroR iqMaxVoltConc_zeroR iqMaxPower_zeroR js_min3_def js_min_def)
qed

section \<open>Power limit against the simple model\<close>





section \<open>Negative voltage discriminant\<close>

text \<open>
  C1 (as amended). When the discriminant of the voltage quadratic is negative at an
  \<open>i_d\<close> sample, the admissible \<open>i_q\<close> of the voltage constraint is 0 in both modes:
  the sample is treated as infeasible, not as unconstrained. The \<open>i_q\<close> selected at the
  sample is then 0 (or NaN, when the power quotient is \<open>0/0\<close>) and the sample's torque
  is not positive.
\<close>

theorem negative_disc_suppresses:
  assumes "disc p w d < 0"
  shows "iqMaxVolt p w d = Fin 0 \<and>
         (iqMax p w d Pin = Fin 0 \<or> iqMax p w d Pin = NaN) \<and>
         \<not> js_gt (Tm p w d Pin) (Fin 0)"
proof -
  have v: "iqMaxVolt p w d = Fin 0"
    using assms by (simp add: iqMaxVolt_def iqMaxVoltConc_def iqMaxVoltEcc_def)
  have q: "iqMax p w d Pin = Fin 0 \<or> iqMax p w d Pin = NaN"
    by (rule iqMax_volt_zero[OF v])
  have "\<not> js_gt (Tm p w d Pin) (Fin 0)"
    using q by (auto simp: Tm_def js_gt_def)
  with v q show ?thesis by simp
qed

text \<open>
  An instance: the default snapshot at its top speed (3 m/s, 600 rad/s at the motor).
\<close>

theorem negative_disc_suppresses_witness:
  "disc defaults 600 0 < 0 \<and> iqMaxVolt defaults 600 0 = Fin 0 \<and>
   (iqMax defaults 600 0 3000 = Fin 0 \<or> iqMax defaults 600 0 3000 = NaN) \<and>
   \<not> js_gt (Tm defaults 600 0 3000) (Fin 0)"
  using negative_disc_suppresses[OF disc_top_speed_neg, of 3000] disc_top_speed_neg by simp

text \<open>
  C1 (as stated) fails. With the default snapshot at the top speed the discriminant is
  negative; the current limit allows 72 A and the power limit more than 17 A, yet the
  voltage-limited value is 0, not infinite, the selected \<open>i_q\<close> is 0 and the stored
  force is 0.
\<close>

theorem negative_disc_zeroes_default_top_speed:
  "omega_m defaults (v_at defaults 60) = 600 \<and>
   disc defaults 600 0 < 0 \<and>
   iqMaxVolt defaults 600 0 = Fin 0 \<and>
   iqMaxVolt defaults 600 0 \<noteq> PInf \<and>
   iqMaxCurrent defaults 0 = 72 \<and>
   js_lt (Fin 17) (iqMaxPower defaults 600 0 3000) \<and>
   iqMax defaults 600 0 3000 = Fin 0 \<and>
   cell defaults 600 3000 = Fin 0"
proof -
  have v: "iqMaxVolt defaults 600 0 = Fin 0"
    using disc_top_speed_neg by (simp add: iqMaxVolt_def iqMaxVoltConc_def iqMaxVoltEcc_def)
  have q: "iqMax defaults 600 0 3000 = Fin 0"
    using iqMax_volt_zero[OF v, of 3000] iqMaxPower_top_speed iqMaxPower_cases[of defaults 600 0 3000]
    by (auto simp: iqMax_def js_min3_def js_min_def v iqMaxCurrent_defaults_0)
  have "\<And>j. \<not> js_gt (Tm defaults 600 (id_k defaults j) 3000) (Fin 0)"
    by (simp add: id_k_defaults Tm_def q js_gt_def)
  moreover have "0 \<le> TmMax defaults"
    by (simp add: TmMax_def Kt_def defaults_def)
  ultimately have c: "cell defaults 600 3000 = Fin 0"
    by (intro cell_zero_of_Tm_zero) simp_all
  show ?thesis using omega_m_top_speed disc_top_speed_neg iqMaxCurrent_defaults_0 iqMaxPower_top_speed v q c by simp
qed

section \<open>Power-limit consistency with the simple model\<close>




section \<open>Topology transform\<close>

text \<open>
  C3 (as amended). For one line-to-line resistance, the WYE per-phase base resistance is
  exactly one third of the DELTA one (\<open>Rll / 2\<close> against \<open>1.5 * Rll\<close>), not one half.
\<close>

theorem RphaseBase_WYE_third_of_DELTA:
  "RphaseBase (p\<lparr>winding := WYE\<rparr>) = RphaseBase (p\<lparr>winding := DELTA\<rparr>) / 3"
  by (simp add: RphaseBase_def)

text \<open>
  C3 (as stated) fails: at the default \<open>Rll = 0.164\<close> the WYE value is \<open>0.082\<close> and
  half of the DELTA value is \<open>0.123\<close>.
\<close>

theorem RphaseBase_WYE_not_half_of_DELTA:
  "RphaseBase (defaults\<lparr>winding := WYE\<rparr>) = 0.082 \<and>
   RphaseBase (defaults\<lparr>winding := DELTA\<rparr>) / 2 = 0.123 \<and>
   RphaseBase (defaults\<lparr>winding := WYE\<rparr>) \<noteq> RphaseBase (defaults\<lparr>winding := DELTA\<rparr>) / 2"
  by (simp add: RphaseBase_def defaults_def)

section \<open>Supply independence in regenerating mode\<close>

text \<open>
  C4. In eccentric (regenerating) mode, in every row of the output the values stored for
  any two selected supply limits are present and equal.
\<close>

theorem regen_supply_independent:
  assumes "mode p = ECC"
  shows "\<forall>r \<in> set (data p). \<forall>P1 \<in> set (selected p). \<forall>P2 \<in> set (selected p).
           map_of (series r) P1 = map_of (series r) P2 \<and> map_of (series r) P1 \<noteq> None"
  using cell_ECC[OF assms] by (auto simp: row_in_data map_of_series)

text \<open>
  An instance: the default snapshot switched to eccentric mode with the limits 450 W and
  3000 W selected.
\<close>

theorem regen_supply_independent_witness:
  "mode (defaults\<lparr>mode := ECC, selected := [450, 3000]\<rparr>) = ECC \<and>
   row_at (defaults\<lparr>mode := ECC, selected := [450, 3000]\<rparr>) 0
     \<in> set (data (defaults\<lparr>mode := ECC, selected := [450, 3000]\<rparr>)) \<and>
   450 \<in> set (selected (defaults\<lparr>mode := ECC, selected := [450, 3000]\<rparr>)) \<and>
   3000 \<in> set (selected (defaults\<lparr>mode := ECC, selected := [450, 3000]\<rparr>)) \<and>
   map_of (series (row_at (defaults\<lparr>mode := ECC, selected := [450, 3000]\<rparr>) 0)) 450 =
   map_of (series (row_at (defaults\<lparr>mode := ECC, selected := [450, 3000]\<rparr>) 0)) 3000 \<and>
   map_of (series (row_at (defaults\<lparr>mode := ECC, selected := [450, 3000]\<rparr>) 0)) 450 \<noteq> None"
proof -
  let ?p = "defaults\<lparr>mode := ECC, selected := [450, 3000]\<rparr>"
  have m: "mode ?p = ECC" by simp
  have r: "row_at ?p 0 \<in> set (data ?p)"
    unfolding row_in_data by (rule exI[of _ 0]) (simp add: step_def)
  have s: "450 \<in> set (selected ?p)" "3000 \<in> set (selected ?p)" by simp_all
  show ?thesis
    using regen_supply_independent[OF m] m r s by blast
qed

section \<open>Clamped and unclamped denominators\<close>

text \<open>
  C5 (as amended). The denominators built from the drum radius (in \<open>omega_out\<close> and in
  \<open>F\<close>), from \<open>Kv\<close> (when \<open>Kt\<close> is derived from it), from \<open>Kt\<close> as entered (when
  \<open>Kv\<close> is derived from it) and from \<open>Kt\<close> (when the current limit is set from a
  torque) are \<open>Math.max(1e-9, .)\<close>: they are at least \<open>1e-9\<close>, and a finite number
  divided by one of them is never \<open>0/0\<close>. Nothing is said of the size of the quotient,
  and nothing of the denominators \<open>Kt * Kt\<close>, \<open>2 * A\<close> and \<open>2 * aP\<close>, which are not
  clamped; the gear ratio is never a denominator.
\<close>

theorem clamped_denominators:
  "0 < eps9 \<and> eps9 \<le> max eps9 y \<and> js_div (Fin x) (Fin (max eps9 y)) \<noteq> NaN \<and>
   omega_out p v = v / max eps9 (drumRadius p) \<and>
   F p w Pin = js_div (Tout p w Pin) (Fin (max eps9 (drumRadius p))) \<and>
   (constMode p = KV \<longrightarrow> Kt p = KTKV / max eps9 (KvState p)) \<and>
   (constMode p = KT \<longrightarrow> Kv p = KTKV / max eps9 (KtState p)) \<and>
   Imax (onChange_MaxMotorTorque p val) = number val / max eps9 (Kt p)"
proof -
  have "max eps9 y \<noteq> 0" using max_eps9_pos[of y] by simp
  then have "js_div (Fin x) (Fin (max eps9 y)) \<noteq> NaN" by simp
  moreover have "0 < eps9" by (simp add: eps9_def)
  ultimately show ?thesis
    by (simp add: omega_out_def F_def Kt_def Kv_def onChange_MaxMotorTorque_def)
qed

text \<open>
  Instances: \<open>Kt\<close> derived from \<open>Kv\<close>, \<open>Kv\<close> derived from \<open>Kt\<close>, and a drum radius
  of 0, where the divisor is \<open>1e-9\<close>.
\<close>

theorem clamped_denominators_witness:
  "constMode (defaults\<lparr>constMode := KV\<rparr>) = KV \<and>
   Kt (defaults\<lparr>constMode := KV\<rparr>) = KTKV / max eps9 (KvState (defaults\<lparr>constMode := KV\<rparr>)) \<and>
   constMode defaults = KT \<and>
   Kv defaults = KTKV / max eps9 (KtState defaults) \<and>
   js_div (Fin 3) (Fin (max eps9 0)) \<noteq> NaN \<and>
   omega_out (defaults\<lparr>drumRadius := 0\<rparr>) 3 = 3 / eps9"
proof -
  have c: "constMode (defaults\<lparr>constMode := KV\<rparr>) = KV" "constMode defaults = KT"
    by (simp_all add: defaults_def)
  have d: "max eps9 (drumRadius (defaults\<lparr>drumRadius := 0\<rparr>)) = eps9"
    by (simp add: eps9_def)
  show ?thesis
    using clamped_denominators[of 0 3 "defaults\<lparr>constMode := KV\<rparr>" 3 600 3000 NaN]
      clamped_denominators[of 0 3 defaults 3 600 3000 NaN]
      clamped_denominators[of 0 3 "defaults\<lparr>drumRadius := 0\<rparr>" 3 600 3000 NaN] c d
    by simp
qed

text \<open>
  C5 (as stated) fails. With \<open>Rll = 0\<close> at standstill the coefficient \<open>A\<close> and the
  power coefficient \<open>aP\<close> are 0 and both quotients are \<open>0/0\<close>, that is NaN; with
  \<open>Kt = 0\<close> the divisor \<open>Kt * Kt\<close> is 0 and \<open>kcu\<close> is infinite.
\<close>

theorem unclamped_denominators_vanish:
  "A (defaults\<lparr>Rll := 0\<rparr>) 0 = 0 \<and>
   iqMaxVoltConc (defaults\<lparr>Rll := 0\<rparr>) 0 0 = NaN \<and>
   aP (defaults\<lparr>Rll := 0\<rparr>) = 0 \<and>
   iqMaxPower (defaults\<lparr>Rll := 0\<rparr>) 0 0 3000 = NaN \<and>
   Kt (defaults\<lparr>KtState := 0\<rparr>) * Kt (defaults\<lparr>KtState := 0\<rparr>) = 0 \<and>
   kcu (defaults\<lparr>KtState := 0\<rparr>) = PInf"
proof -
  have "Kt (defaults\<lparr>KtState := 0\<rparr>) = 0" by (simp add: Kt_def defaults_def)
  moreover have "0 < Rphase (defaults\<lparr>KtState := 0\<rparr>)"
    by (simp add: Rphase_def RphaseBase_def defaults_def)
  ultimately have "kcu (defaults\<lparr>KtState := 0\<rparr>) = PInf" by (simp add: kcu_def)
  moreover have "aP (defaults\<lparr>Rll := 0\<rparr>) = 0" by (simp add: aP_def Rphase_zeroR)
  moreover have "Kt (defaults\<lparr>KtState := 0\<rparr>) * Kt (defaults\<lparr>KtState := 0\<rparr>) = 0"
    by (simp add: Kt_def defaults_def)
  ultimately show ?thesis using A_zeroR iqMaxVoltConc_zeroR iqMaxPower_zeroR by blast
qed

section \<open>Current clamp\<close>

text \<open>
  C6 (as amended). For every snapshot with \<open>Imax \<ge> 0\<close>, at every speed, \<open>i_d\<close> sample
  and supply limit, the selected \<open>i_q\<close> is either NaN or a number between 0 and
  \<open>Imax\<close>; it is a number, so that \<open>|i_q| \<le> Imax\<close> holds, when the coefficient \<open>A\<close>
  and, in motoring mode, the coefficient \<open>aP\<close> are not 0. The final motor torque never
  exceeds \<open>Kt * Imax\<close>.
\<close>

theorem current_clamp:
  assumes "0 \<le> Imax p"
  shows "(iqMax p w d Pin = NaN \<or>
            (\<exists>x. iqMax p w d Pin = Fin x \<and> 0 \<le> x \<and> x \<le> Imax p)) \<and>
         (A p w \<noteq> 0 \<and> (mode p = ECC \<or> aP p \<noteq> 0) \<longrightarrow>
            js_le (js_abs (iqMax p w d Pin)) (Fin (Imax p))) \<and>
         js_le (TmFinal p w Pin) (Fin (Kt p * Imax p))"
proof -
  have c: "iqMax p w d Pin = NaN \<or>
            (\<exists>x. iqMax p w d Pin = Fin x \<and> 0 \<le> x \<and> x \<le> Imax p)"
    using iqMax_cases[of p w d Pin] iqMaxCurrent_le_Imax[OF assms, of d] by fastforce
  have "js_le (js_abs (iqMax p w d Pin)) (Fin (Imax p))"
    if "A p w \<noteq> 0" "mode p = ECC \<or> aP p \<noteq> 0"
    using c iqMax_number[OF that, of d Pin] by (auto simp: js_le_def)
  moreover have "js_le (TmFinal p w Pin) (Fin (Kt p * Imax p))"
    using TmFinal_bound[of p w Pin] by (auto simp: TmMax_def js_le_def)
  ultimately show ?thesis using c by blast
qed

text \<open>
  An instance: the default snapshot at its top speed.
\<close>

theorem current_clamp_witness:
  "0 \<le> Imax defaults \<and> A defaults 600 \<noteq> 0 \<and> aP defaults \<noteq> 0 \<and>
   js_le (js_abs (iqMax defaults 600 0 3000)) (Fin (Imax defaults)) \<and>
   js_le (TmFinal defaults 600 3000) (Fin (Kt defaults * Imax defaults))"
proof -
  have i: "0 \<le> Imax defaults" by (simp add: Imax_defaults)
  have a: "A defaults 600 \<noteq> 0" using A_pos[of defaults 600] by (simp add: Rphase_defaults)
  have b: "aP defaults \<noteq> 0" by (simp add: aP_def Rphase_defaults)
  show ?thesis using current_clamp[OF i, of 600 0 3000] i a b by blast
qed

text \<open>
  C6 (as stated) fails. With \<open>Rll = 0\<close> (and \<open>Imax = 72\<close>, \<open>Kt = 0.272\<close>) the
  first sample, at speed 0, selects \<open>i_q = NaN\<close>, and \<open>|NaN| \<le> Imax\<close> is false.
\<close>

theorem current_clamp_fails_at_zero_resistance:
  "0 \<le> Imax (defaults\<lparr>Rll := 0\<rparr>) \<and> 0 \<le> Kt (defaults\<lparr>Rll := 0\<rparr>) \<and>
   omega_m (defaults\<lparr>Rll := 0\<rparr>) (v_at (defaults\<lparr>Rll := 0\<rparr>) 0) = 0 \<and>
   iqMax (defaults\<lparr>Rll := 0\<rparr>) 0 (id_k (defaults\<lparr>Rll := 0\<rparr>) 0) 3000 = NaN \<and>
   \<not> js_le (js_abs (iqMax (defaults\<lparr>Rll := 0\<rparr>) 0 (id_k (defaults\<lparr>Rll := 0\<rparr>) 0) 3000))
            (Fin (Imax (defaults\<lparr>Rll := 0\<rparr>)))"
  by (simp add: iqMax_zeroR js_le_def) (simp add: defaults_def Kt_def omega_m_def omega_out_def v_at_def)

section \<open>Stored forces are finite and non-negative\<close>

text \<open>
  C7. For every snapshot, every value stored in a row of the output is a finite number and
  is at least 0: it is the cell value of its supply limit at the row's speed, and it is 0
  whenever the computed pound-force is not finite or not positive.
\<close>

theorem force_values_finite_nonneg:
  "\<forall>r \<in> set (data p). \<forall>(Pin, y) \<in> set (series r).
      isFinite y \<and> js_ge y (Fin 0) \<and>
      y = cell p (omega_m p (speed r)) Pin \<and>
      (\<not> (isFinite (lbf p (omega_m p (speed r)) Pin) \<and> js_gt (lbf p (omega_m p (speed r)) Pin) (Fin 0))
         \<longrightarrow> y = Fin 0)"
proof (intro ballI, clarify)
  fix r Pin y
  assume r: "r \<in> set (data p)" and y: "(Pin, y) \<in> set (series r)"
  from r obtain i where i: "r = row_at p i" by (auto simp: row_in_data)
  have s: "speed r = v_at p i" by (simp add: i row_at_def Let_def)
  from y have yc: "y = cell p (omega_m p (speed r)) Pin"
    by (auto simp: i row_at_def Let_def)
  obtain x where x: "0 \<le> x" "y = Fin x"
    using cell_finite_nonneg[of p "omega_m p (speed r)" Pin] yc by auto
  show "isFinite y \<and> js_ge y (Fin 0) \<and>
      y = cell p (omega_m p (speed r)) Pin \<and>
      (\<not> (isFinite (lbf p (omega_m p (speed r)) Pin) \<and> js_gt (lbf p (omega_m p (speed r)) Pin) (Fin 0))
         \<longrightarrow> y = Fin 0)"
    using x yc by (auto simp: js_ge_def js_le_def cell_def)
qed

text \<open>
  An instance: the last row of the default snapshot.
\<close>

theorem force_values_finite_nonneg_witness:
  "row_at defaults 60 \<in> set (data defaults) \<and>
   (3000, cell defaults 600 3000) \<in> set (series (row_at defaults 60)) \<and>
   isFinite (cell defaults 600 3000) \<and> js_ge (cell defaults 600 3000) (Fin 0)"
proof -
  have r: "row_at defaults 60 \<in> set (data defaults)"
    unfolding row_in_data by (rule exI[of _ 60]) (simp add: step_def defaults_def)
  have sp: "speed (row_at defaults 60) = v_at defaults 60"
    by (simp add: row_at_def Let_def)
  have s: "(3000, cell defaults 600 3000) \<in> set (series (row_at defaults 60))"
    by (simp add: row_at_def Let_def omega_m_top_speed) (simp add: defaults_def)
  show ?thesis
    using force_values_finite_nonneg[of defaults] r s by fastforce
qed

section \<open>Speed sweep\<close>

text \<open>
  C8 (as amended). For every snapshot whose \<open>steps\<close> is a whole number \<open>n\<close> between 10
  and 500 and whose \<open>maxSpeed\<close> is not negative, the output has exactly \<open>n + 1\<close> rows,
  their speeds are sorted in non-decreasing order, the first is 0, and row \<open>i\<close> holds
  the quotient \<open>(maxSpeed * i) / n\<close>.
\<close>

theorem speed_sweep:
  assumes "steps p = real n" "10 \<le> n" "n \<le> 500" "0 \<le> maxSpeed p"
  shows "length (data p) = n + 1 \<and>
         sorted (map speed (data p)) \<and>
         speed (data p ! 0) = 0 \<and>
         (\<forall>i \<le> n. speed (data p ! i) = (maxSpeed p * real i) / real n)"
proof -
  have n1: "1 \<le> n" using assms(2) by simp
  have m: "map speed (data p) = map (\<lambda>i. maxSpeed p * real i / real n) [0 ..< Suc n]"
    using assms(1) n1 by (rule data_speeds(2))
  have len: "length (data p) = n + 1"
    using arg_cong[OF m, of length] by simp
  have nth: "speed (data p ! i) = maxSpeed p * real i / real n" if "i \<le> n" for i
  proof -
    have "i < length (data p)" using that len by simp
    then have "speed (data p ! i) = map speed (data p) ! i" by simp
    also have "\<dots> = maxSpeed p * real i / real n"
      unfolding m using that by (simp del: upt_Suc)
    finally show ?thesis .
  qed
  have mono: "speed (data p ! i) \<le> speed (data p ! j)" if "i \<le> j" "j \<le> n" for i j
  proof -
    have "maxSpeed p * real i \<le> maxSpeed p * real j"
      using that(1) assms(4) by (simp add: mult_left_mono)
    then show ?thesis using that by (simp add: nth divide_right_mono)
  qed
  have srt: "sorted (map speed (data p))"
    unfolding sorted_iff_nth_mono using mono len by simp
  show ?thesis
    using len srt nth[of 0] nth by simp
qed

text \<open>
  An instance: the default snapshot, with 60 steps up to 3 m/s.
\<close>

theorem speed_sweep_witness:
  "steps defaults = real 60 \<and> (10::nat) \<le> 60 \<and> (60::nat) \<le> 500 \<and> 0 \<le> maxSpeed defaults \<and>
   length (data defaults) = 61 \<and> sorted (map speed (data defaults)) \<and>
   speed (data defaults ! 0) = 0 \<and> speed (data defaults ! 30) = (3 * 30) / 60"
proof -
  have h: "steps defaults = real 60" "0 \<le> maxSpeed defaults" "maxSpeed defaults = 3"
    by (simp_all add: defaults_def)
  have n: "(10::nat) \<le> 60" "(60::nat) \<le> 500" by simp_all
  note T = speed_sweep[OF h(1) n h(2)]
  have len: "length (data defaults) = 61" using T by simp
  have srt: "sorted (map speed (data defaults))" using T by simp
  have s0: "speed (data defaults ! 0) = 0" using T by simp
  have all: "\<forall>i\<le>60. speed (data defaults ! i) = (maxSpeed defaults * real i) / real 60"
    using T by blast
  have "(30::nat) \<le> 60" by simp
  with all have "speed (data defaults ! 30) = (maxSpeed defaults * real 30) / real 60"
    by blast
  then have s30: "speed (data defaults ! 30) = (3 * 30) / 60" by (simp add: h(3))
  show ?thesis using h(1,2) len srt s0 s30 by simp
qed

text \<open>
  C8 (as stated) fails when \<open>steps\<close> is not a whole number. Entering 10.5 in the field
  "Chart points" of the default snapshot stores 10.5, which lies between 10 and 500; the
  loop then runs for \<open>i = 0, ..., 10\<close>: 11 rows, not 11.5, and the last speed is
  \<open>3 * 10 / 10.5 = 20/7\<close>, below \<open>maxSpeed = 3\<close>.
\<close>

theorem speed_sweep_fails_at_fractional_steps:
  "steps (onChange_ChartPoints defaults (Fin 10.5)) = 10.5 \<and>
   10 \<le> steps (onChange_ChartPoints defaults (Fin 10.5)) \<and>
   steps (onChange_ChartPoints defaults (Fin 10.5)) \<le> 500 \<and>
   0 \<le> maxSpeed (onChange_ChartPoints defaults (Fin 10.5)) \<and>
   maxSpeed (onChange_ChartPoints defaults (Fin 10.5)) = 3 \<and>
   length (data (onChange_ChartPoints defaults (Fin 10.5))) = 11 \<and>
   real (length (data (onChange_ChartPoints defaults (Fin 10.5)))) \<noteq>
     steps (onChange_ChartPoints defaults (Fin 10.5)) + 1 \<and>
   speed (last (data (onChange_ChartPoints defaults (Fin 10.5)))) = 20 / 7 \<and>
   speed (last (data (onChange_ChartPoints defaults (Fin 10.5)))) \<noteq>
     maxSpeed (onChange_ChartPoints defaults (Fin 10.5))"
proof -
  define p where "p = onChange_ChartPoints defaults (Fin 10.5)"
  have s: "steps p = 10.5" by (simp add: p_def onChange_ChartPoints_def)
  have m: "maxSpeed p = 3" by (simp add: p_def onChange_ChartPoints_def defaults_def)
  have st: "step p = 10.5" by (simp add: step_def s)
  have fl: "nat \<lfloor>step p\<rfloor> = 10" by (simp add: st)
  have d: "data p = map (row_at p) [0 ..< 11]" by (simp add: data_map fl)
  have len: "length (data p) = 11" by (simp add: d)
  have "last (data p) = row_at p 10"
    unfolding d by (simp add: last_map)
  then have l: "speed (last (data p)) = 20 / 7"
    by (simp add: row_at_def Let_def v_at_def st m)
  show ?thesis unfolding p_def[symmetric] using s m len l by simp
qed

section \<open>Power limit\<close>



section \<open>Voltage roots in the two modes\<close>




end
